theory Spec2Isabelle
  imports Main
begin

section \<open>JavaScript values\<close>

text \<open>
  The node editor of \<^verbatim>\<open>src/features/modals/NodeModal/index.tsx\<close> works on
  values parsed from JSON text. A value is modelled as a tree: the document handed to
  the editor is the fresh result of a parse, so no two slots of it share an object and
  an assignment through a reference is the replacement of one subtree.

  Numbers are exact decimals: \<open>Dec m d\<close> is \<open>m / 10 ^ d\<close>, kept normalised
  (\<open>d = 0\<close>, or \<open>m\<close> does not end in the digit zero). The rounding of a literal
  to an IEEE double and its overflow to \<open>Infinity\<close> are not part of the model, and
  \<open>-0\<close> is \<open>0\<close> (the program prints both as \<open>0\<close>).

  A \<open>char\<close> stands for one UTF-16 code unit below 256. A string with a larger code
  unit has no counterpart in the model.
\<close>

datatype number = Dec int nat

datatype jsvalue =
    JUndefined
  | JNull
  | JBool bool
  | JNum number
  | JStr string
  | JArr "jsvalue list"
  | JObj "(string \<times> jsvalue) list"

text \<open>
  What a call does: it returns a value, it throws, or it leaves the model
  (\<open>Outside\<close>: the program goes on in JavaScript with a value or an object that the
  types above cannot hold, such as a string with a code unit above 255 or a function
  inherited from a prototype).
\<close>

datatype exn = SyntaxError | TypeError | Rejected string

datatype 'a outcome = Returns 'a | Throws exn | Outside

definition obind :: "'a outcome \<Rightarrow> ('a \<Rightarrow> 'b outcome) \<Rightarrow> 'b outcome" where
  "obind m f = (case m of Returns x \<Rightarrow> f x | Throws e \<Rightarrow> Throws e | Outside \<Rightarrow> Outside)"

section \<open>Digits and decimal numbers\<close>

definition is_digit :: "char \<Rightarrow> bool" where
  "is_digit c = (c \<in> set ''0123456789'')"

definition digit_val :: "char \<Rightarrow> nat" where
  "digit_val c = of_char c - 48"

definition nat_of_digits :: "string \<Rightarrow> nat" where
  "nat_of_digits ds = foldl (\<lambda>a c. 10 * a + digit_val c) 0 ds"

fun digits_of :: "nat \<Rightarrow> string" where
  "digits_of n =
     (if n < 10 then [''0123456789'' ! n]
      else digits_of (n div 10) @ [''0123456789'' ! (n mod 10)])"

declare digits_of.simps [simp del]

text \<open>Drop the trailing zeros of the decimal places.\<close>

function normalize :: "nat \<Rightarrow> nat \<Rightarrow> nat \<times> nat" where
  "normalize m d =
     (if d = 0 \<or> m mod 10 \<noteq> 0 then (m, d) else normalize (m div 10) (d - 1))"
  by pat_completeness auto
termination
  by (relation "measure (\<lambda>(m, d). d)") auto

declare normalize.simps [simp del]

text \<open>The number with the digits \<open>ds\<close>, times \<open>10 ^ e\<close>.\<close>

definition number_of_digits :: "bool \<Rightarrow> string \<Rightarrow> int \<Rightarrow> number" where
  "number_of_digits neg ds e =
     (case (if 0 \<le> e then (nat_of_digits ds * 10 ^ nat e, 0)
            else normalize (nat_of_digits ds) (nat (- e))) of
        (m, d) \<Rightarrow> Dec (if neg then - int m else int m) d)"

text \<open>
  \<open>Number::toString\<close> (ECMA-262, radix 10): with \<open>s\<close> the significant digits,
  \<open>k\<close> their count and \<open>n\<close> the position of the decimal point.
\<close>

definition number_to_string :: "number \<Rightarrow> string" where
  "number_to_string x =
     (case x of Dec m d \<Rightarrow>
        if m = 0 then ''0''
        else
          let ds = digits_of (nat \<bar>m\<bar>);
              s = rev (dropWhile (\<lambda>c. c = CHR ''0'') (rev ds));
              k = int (length s);
              n = int (length ds) - int d;
              body =
                (if k \<le> n \<and> n \<le> 21 then s @ replicate (nat (n - k)) CHR ''0''
                 else if 0 < n \<and> n \<le> 21 then take (nat n) s @ ''.'' @ drop (nat n) s
                 else if - 6 < n \<and> n \<le> 0 then ''0.'' @ replicate (nat (- n)) CHR ''0'' @ s
                 else
                   (if k = 1 then s else take 1 s @ ''.'' @ drop 1 s)
                   @ ''e'' @ (if 0 \<le> n - 1 then ''+'' else ''-'') @ digits_of (nat \<bar>n - 1\<bar>))
          in (if m < 0 then ''-'' else []) @ body)"

definition nat_to_string :: "nat \<Rightarrow> string" where
  "nat_to_string n = number_to_string (Dec (int n) 0)"

section \<open>Objects: own properties in order\<close>

text \<open>
  An object is the list of its own properties in the order JavaScript enumerates them:
  array-index names (canonical numerals below \<open>2^32 - 1\<close>) first, ascending, then the
  other names in the order of their creation. Assigning to an own property keeps its
  place; a new property goes to the place its name gives it.
\<close>

definition array_index :: "string \<Rightarrow> nat option" where
  "array_index s =
     (if s \<noteq> [] \<and> list_all is_digit s \<and> (s = ''0'' \<or> hd s \<noteq> CHR ''0'')
         \<and> nat_of_digits s < 4294967295
      then Some (nat_of_digits s) else None)"

definition key_before :: "string \<Rightarrow> string \<Rightarrow> bool" where
  "key_before k k' =
     (case array_index k of
        None \<Rightarrow> False
      | Some i \<Rightarrow> (case array_index k' of None \<Rightarrow> True | Some j \<Rightarrow> i < j))"

fun obj_insert :: "string \<Rightarrow> jsvalue \<Rightarrow> (string \<times> jsvalue) list \<Rightarrow> (string \<times> jsvalue) list" where
  "obj_insert k v [] = [(k, v)]"
| "obj_insert k v ((k', v') # kvs) =
     (if key_before k k' then (k, v) # (k', v') # kvs
      else (k', v') # obj_insert k v kvs)"

fun obj_update :: "string \<Rightarrow> jsvalue \<Rightarrow> (string \<times> jsvalue) list \<Rightarrow> (string \<times> jsvalue) list" where
  "obj_update k v [] = []"
| "obj_update k v ((k', v') # kvs) =
     (if k' = k then (k, v) # kvs else (k', v') # obj_update k v kvs)"

definition obj_put :: "string \<Rightarrow> jsvalue \<Rightarrow> (string \<times> jsvalue) list \<Rightarrow> (string \<times> jsvalue) list" where
  "obj_put k v kvs =
     (if map_of kvs k = None then obj_insert k v kvs else obj_update k v kvs)"

section \<open>\<open>JSON.parse\<close>\<close>

text \<open>
  The built-in parser, after ECMA-404: a lexer and a parser with an explicit stack of
  the containers under construction. \<open>None\<close> is the \<open>SyntaxError\<close>.
\<close>

definition is_hex :: "char \<Rightarrow> bool" where
  "is_hex c = (c \<in> set ''0123456789abcdefABCDEF'')"

definition hex_val :: "char \<Rightarrow> nat" where
  "hex_val c =
     (if is_digit c then of_char c - 48
      else if c \<in> set ''abcdef'' then of_char c - 87
      else of_char c - 55)"

definition unescape :: "char \<Rightarrow> char option" where
  "unescape e =
     (if e = CHR 0x22 then Some (CHR 0x22)
      else if e = CHR 0x5C then Some (CHR 0x5C)
      else if e = CHR ''/'' then Some (CHR ''/'')
      else if e = CHR ''b'' then Some (CHR 0x08)
      else if e = CHR ''f'' then Some (CHR 0x0C)
      else if e = CHR ''n'' then Some (CHR 0x0A)
      else if e = CHR ''r'' then Some (CHR 0x0D)
      else if e = CHR ''t'' then Some (CHR 0x09)
      else None)"

definition lex_cons :: "char \<Rightarrow> (string \<times> bool \<times> string) option \<Rightarrow> (string \<times> bool \<times> string) option" where
  "lex_cons c r = (case r of None \<Rightarrow> None | Some (s, w, rest) \<Rightarrow> Some (c # s, w, rest))"

definition lex_wide :: "(string \<times> bool \<times> string) option \<Rightarrow> (string \<times> bool \<times> string) option" where
  "lex_wide r = (case r of None \<Rightarrow> None | Some (s, w, rest) \<Rightarrow> Some (CHR ''?'' # s, True, rest))"

text \<open>
  The text after an opening quote, up to the closing one: the string, whether an
  escape \<open>\uXXXX\<close> named a code unit above 255 (a \<open>?\<close> stands in for it), and
  the rest of the input.
\<close>

fun lex_string :: "string \<Rightarrow> (string \<times> bool \<times> string) option" where
  "lex_string [] = None"
| "lex_string (c # cs) =
     (if c = CHR 0x22 then Some ([], False, cs)
      else if c = CHR 0x5C then
        (case cs of
           [] \<Rightarrow> None
         | e # r \<Rightarrow>
             if e = CHR ''u'' then
               (case r of
                  h1 # h2 # h3 # h4 # r' \<Rightarrow>
                    if is_hex h1 \<and> is_hex h2 \<and> is_hex h3 \<and> is_hex h4 then
                      (let n = ((hex_val h1 * 16 + hex_val h2) * 16 + hex_val h3) * 16 + hex_val h4
                       in if n < 256 then lex_cons (char_of n) (lex_string r')
                          else lex_wide (lex_string r'))
                    else None
                | _ \<Rightarrow> None)
             else
               (case unescape e of
                  None \<Rightarrow> None
                | Some ch \<Rightarrow> lex_cons ch (lex_string r)))
      else if (of_char c :: nat) < 32 then None
      else lex_cons c (lex_string cs))"

text \<open>
  A number, \<open>-? (0 | [1-9][0-9]*) (. [0-9]+)? ([eE] [+-]? [0-9]+)?\<close>, and the rest
  of the input.
\<close>

definition lex_fraction :: "string \<Rightarrow> (string \<times> string) option" where
  "lex_fraction s =
     (if s \<noteq> [] \<and> hd s = CHR ''.'' then
        (if takeWhile is_digit (tl s) = [] then None
         else Some (takeWhile is_digit (tl s), dropWhile is_digit (tl s)))
      else Some ([], s))"

definition lex_exponent :: "string \<Rightarrow> (int \<times> string) option" where
  "lex_exponent s =
     (if s \<noteq> [] \<and> (hd s = CHR ''e'' \<or> hd s = CHR ''E'') then
        (let s4 = tl s;
             eneg = (s4 \<noteq> [] \<and> hd s4 = CHR ''-'');
             s5 = (if s4 \<noteq> [] \<and> (hd s4 = CHR ''-'' \<or> hd s4 = CHR ''+'') then tl s4 else s4);
             ep = takeWhile is_digit s5
         in if ep = [] then None
            else Some (if eneg then - int (nat_of_digits ep) else int (nat_of_digits ep),
                       dropWhile is_digit s5))
      else Some (0, s))"

definition lex_number :: "string \<Rightarrow> (number \<times> string) option" where
  "lex_number s =
     (let neg = (s \<noteq> [] \<and> hd s = CHR ''-'');
          s1 = (if neg then tl s else s);
          ip = takeWhile is_digit s1
      in if ip = [] \<or> (1 < length ip \<and> hd ip = CHR ''0'') then None
         else
           (case lex_fraction (dropWhile is_digit s1) of
              None \<Rightarrow> None
            | Some (fp, s3) \<Rightarrow>
                (case lex_exponent s3 of
                   None \<Rightarrow> None
                 | Some (ex, s6) \<Rightarrow>
                     Some (number_of_digits neg (ip @ fp) (ex - int (length fp)), s6))))"

datatype token =
    TLBrace | TRBrace | TLBrack | TRBrack | TColon | TComma
  | TStr string
  | TVal jsvalue

definition tok_cons :: "token \<Rightarrow> (token list \<times> bool) option \<Rightarrow> (token list \<times> bool) option" where
  "tok_cons t r = (case r of None \<Rightarrow> None | Some (ts, w) \<Rightarrow> Some (t # ts, w))"

lemma lex_string_shorter:
  "lex_string cs = Some (s, w, r) \<Longrightarrow> length r < length cs"
proof (induction cs arbitrary: s w r rule: length_induct)
  case (1 cs)
  show ?case
  proof (cases cs)
    case Nil
    with 1 show ?thesis by simp
  next
    case (Cons c cs')
    have ih: "\<And>ys s' w' r'. length ys < length cs \<Longrightarrow> lex_string ys = Some (s', w', r')
                \<Longrightarrow> length r' < length ys"
      using 1(1) by blast
    from 1(2) Cons show ?thesis
      by (auto simp: lex_cons_def lex_wide_def Let_def
               split: if_splits list.splits option.splits prod.splits
               dest!: ih [rotated])
  qed
qed

lemma lex_fraction_shorter:
  "lex_fraction cs = Some (fp, r) \<Longrightarrow> length r \<le> length cs"
  unfolding lex_fraction_def
  by (auto split: if_splits intro: le_trans [OF length_dropWhile_le])

lemma lex_exponent_shorter:
  "lex_exponent cs = Some (ex, r) \<Longrightarrow> length r \<le> length cs"
proof -
  have dw: "\<And>xs :: string. length (dropWhile is_digit xs) \<le> length xs"
    by (simp add: length_dropWhile_le)
  assume a: "lex_exponent cs = Some (ex, r)"
  show ?thesis
  proof (cases "cs \<noteq> [] \<and> (hd cs = CHR ''e'' \<or> hd cs = CHR ''E'')")
    case False
    with a show ?thesis by (simp add: lex_exponent_def)
  next
    case True
    define s5 where "s5 = (if tl cs \<noteq> [] \<and> (hd (tl cs) = CHR ''-'' \<or> hd (tl cs) = CHR ''+'')
                           then tl (tl cs) else tl cs)"
    from a True have "r = dropWhile is_digit s5"
      by (auto simp add: lex_exponent_def Let_def s5_def split: if_splits)
    moreover have "length s5 \<le> length cs" by (simp add: s5_def)
    ultimately show ?thesis using dw [of s5] by simp
  qed
qed

lemma lex_number_shorter:
  assumes a: "lex_number cs = Some (n, r)"
  shows "length r < length cs"
proof -
  define s1 where "s1 = (if cs \<noteq> [] \<and> hd cs = CHR ''-'' then tl cs else cs)"
  from a have ip: "takeWhile is_digit s1 \<noteq> []"
    unfolding lex_number_def Let_def s1_def by (auto split: if_splits)
  from a ip obtain fp s3 ex where
    f: "lex_fraction (dropWhile is_digit s1) = Some (fp, s3)" and e: "lex_exponent s3 = Some (ex, r)"
    unfolding lex_number_def Let_def s1_def [symmetric]
    by (auto split: if_splits option.splits)
  have "length s1 = length (takeWhile is_digit s1) + length (dropWhile is_digit s1)"
    by (metis length_append takeWhile_dropWhile_id)
  with ip have "length (dropWhile is_digit s1) < length s1" by simp
  moreover have "length s1 \<le> length cs" by (simp add: s1_def)
  ultimately show ?thesis
    using lex_fraction_shorter [OF f] lex_exponent_shorter [OF e] by linarith
qed

function tokenize :: "string \<Rightarrow> (token list \<times> bool) option" where
  "tokenize [] = Some ([], False)"
| "tokenize (c # cs) =
     (if c \<in> set [CHR '' '', CHR 0x09, CHR 0x0A, CHR 0x0D] then tokenize cs
      else if c = CHR ''{'' then tok_cons TLBrace (tokenize cs)
      else if c = CHR ''}'' then tok_cons TRBrace (tokenize cs)
      else if c = CHR ''['' then tok_cons TLBrack (tokenize cs)
      else if c = CHR '']'' then tok_cons TRBrack (tokenize cs)
      else if c = CHR '':'' then tok_cons TColon (tokenize cs)
      else if c = CHR '','' then tok_cons TComma (tokenize cs)
      else if c = CHR 0x22 then
        (case lex_string cs of
           None \<Rightarrow> None
         | Some (s, w, r) \<Rightarrow>
             (case tokenize r of
                None \<Rightarrow> None
              | Some (ts, w') \<Rightarrow> Some (TStr s # ts, w \<or> w')))
      else if c = CHR ''-'' \<or> is_digit c then
        (case lex_number (c # cs) of
           None \<Rightarrow> None
         | Some (n, r) \<Rightarrow> tok_cons (TVal (JNum n)) (tokenize r))
      else if take 4 (c # cs) = ''true'' then tok_cons (TVal (JBool True)) (tokenize (drop 3 cs))
      else if take 5 (c # cs) = ''false'' then tok_cons (TVal (JBool False)) (tokenize (drop 4 cs))
      else if take 4 (c # cs) = ''null'' then tok_cons (TVal JNull) (tokenize (drop 3 cs))
      else None)"
  by pat_completeness auto
termination
proof (relation "measure length", goal_cases)
  case 1
  show ?case by simp
next
  case (9 c cs x2 x y xa ya)
  then have "lex_string cs = Some (x, xa, ya)" by simp
  from lex_string_shorter [OF this] show ?case by simp
next
  case (10 c cs x2 x y)
  then have "lex_number (c # cs) = Some (x, y)" by simp
  from lex_number_shorter [OF this] show ?case by simp
qed simp_all

declare tokenize.simps(2) [simp del]

datatype frame = FArr "jsvalue list" | FObj "(string \<times> jsvalue) list" string

fun parse_value :: "frame list \<Rightarrow> token list \<Rightarrow> jsvalue option"
  and parse_after :: "jsvalue \<Rightarrow> frame list \<Rightarrow> token list \<Rightarrow> jsvalue option" where
  "parse_value st [] = None"
| "parse_value st (t # ts) =
     (case t of
        TVal v \<Rightarrow> parse_after v st ts
      | TStr s \<Rightarrow> parse_after (JStr s) st ts
      | TLBrack \<Rightarrow>
          (case ts of
             TRBrack # ts' \<Rightarrow> parse_after (JArr []) st ts'
           | _ \<Rightarrow> parse_value (FArr [] # st) ts)
      | TLBrace \<Rightarrow>
          (case ts of
             TRBrace # ts' \<Rightarrow> parse_after (JObj []) st ts'
           | TStr k # TColon # ts' \<Rightarrow> parse_value (FObj [] k # st) ts'
           | _ \<Rightarrow> None)
      | _ \<Rightarrow> None)"
| "parse_after v [] ts = (if ts = [] then Some v else None)"
| "parse_after v (FArr acc # st) ts =
     (case ts of
        TComma # ts' \<Rightarrow> parse_value (FArr (acc @ [v]) # st) ts'
      | TRBrack # ts' \<Rightarrow> parse_after (JArr (acc @ [v])) st ts'
      | _ \<Rightarrow> None)"
| "parse_after v (FObj acc k # st) ts =
     (case ts of
        TComma # TStr k' # TColon # ts' \<Rightarrow> parse_value (FObj (obj_put k v acc) k' # st) ts'
      | TRBrace # ts' \<Rightarrow> parse_after (JObj (obj_put k v acc)) st ts'
      | _ \<Rightarrow> None)"

definition JSON_parse :: "string \<Rightarrow> jsvalue outcome" where
  "JSON_parse text =
     (case tokenize text of
        None \<Rightarrow> Throws SyntaxError
      | Some (ts, wide) \<Rightarrow>
          (case parse_value [] ts of
             None \<Rightarrow> Throws SyntaxError
           | Some v \<Rightarrow> if wide then Outside else Returns v))"

section \<open>Conversions to text\<close>

definition join :: "string \<Rightarrow> string list \<Rightarrow> string" where
  "join sep parts = (case parts of [] \<Rightarrow> [] | p # ps \<Rightarrow> p @ concat (map (\<lambda>q. sep @ q) ps))"

text \<open>\<open>ToString\<close>, as \<open>String(v)\<close> and a template literal apply it.\<close>

fun to_string :: "jsvalue \<Rightarrow> string" where
  "to_string JUndefined = ''undefined''"
| "to_string JNull = ''null''"
| "to_string (JBool b) = (if b then ''true'' else ''false'')"
| "to_string (JNum n) = number_to_string n"
| "to_string (JStr s) = s"
| "to_string (JArr xs) =
     join '','' (map (\<lambda>x. if x = JNull \<or> x = JUndefined then [] else to_string x) xs)"
| "to_string (JObj kvs) = ''[object Object]''"

definition hex_digit :: "nat \<Rightarrow> char" where
  "hex_digit d = ''0123456789abcdef'' ! d"

definition escape_char :: "char \<Rightarrow> string" where
  "escape_char c =
     (if c = CHR 0x22 then [CHR 0x5C, CHR 0x22]
      else if c = CHR 0x5C then [CHR 0x5C, CHR 0x5C]
      else if c = CHR 0x08 then [CHR 0x5C, CHR ''b'']
      else if c = CHR 0x0C then [CHR 0x5C, CHR ''f'']
      else if c = CHR 0x0A then [CHR 0x5C, CHR ''n'']
      else if c = CHR 0x0D then [CHR 0x5C, CHR ''r'']
      else if c = CHR 0x09 then [CHR 0x5C, CHR ''t'']
      else if (of_char c :: nat) < 32 then
        [CHR 0x5C, CHR ''u'', CHR ''0'', CHR ''0'',
         hex_digit (of_char c div 16), hex_digit (of_char c mod 16)]
      else [c])"

definition quote :: "string \<Rightarrow> string" where
  "quote s = [CHR 0x22] @ concat (map escape_char s) @ [CHR 0x22]"

text \<open>
  \<open>JSON.stringify(v, null, gap)\<close>: \<open>None\<close> is the result \<open>undefined\<close>. An
  undefined element of an array prints as \<open>null\<close>, an undefined property is left out.
\<close>

fun serialize :: "string \<Rightarrow> string \<Rightarrow> jsvalue \<Rightarrow> string option" where
  "serialize gap indent JUndefined = None"
| "serialize gap indent JNull = Some ''null''"
| "serialize gap indent (JBool b) = Some (if b then ''true'' else ''false'')"
| "serialize gap indent (JNum n) = Some (number_to_string n)"
| "serialize gap indent (JStr s) = Some (quote s)"
| "serialize gap indent (JArr xs) =
     (let parts = map (\<lambda>x. case serialize gap (indent @ gap) x of
                               None \<Rightarrow> ''null'' | Some t \<Rightarrow> t) xs
      in if parts = [] then Some ''[]''
         else if gap = [] then Some (''['' @ join '','' parts @ '']'')
         else Some (''['' @ [CHR 0x0A] @ indent @ gap
                    @ join ('','' @ [CHR 0x0A] @ indent @ gap) parts
                    @ [CHR 0x0A] @ indent @ '']''))"
| "serialize gap indent (JObj kvs) =
     (let parts = concat (map (\<lambda>kv. case serialize gap (indent @ gap) (snd kv) of
                                       None \<Rightarrow> []
                                     | Some t \<Rightarrow>
                                         [quote (fst kv) @ (if gap = [] then '':'' else '': '') @ t])
                              kvs)
      in if parts = [] then Some ''{}''
         else if gap = [] then Some (''{'' @ join '','' parts @ ''}'')
         else Some (''{'' @ [CHR 0x0A] @ indent @ gap
                    @ join ('','' @ [CHR 0x0A] @ indent @ gap) parts
                    @ [CHR 0x0A] @ indent @ ''}''))"

definition JSON_stringify :: "jsvalue \<Rightarrow> string option" where
  "JSON_stringify v = serialize [] [] v"

definition JSON_stringify_2 :: "jsvalue \<Rightarrow> string option" where
  "JSON_stringify_2 v = serialize ''  '' [] v"

section \<open>Property access\<close>

text \<open>
  A path segment is an array index or an object key (\<open>Array<string | number>\<close>).
\<close>

datatype seg = Idx nat | Key string

definition prop_name :: "seg \<Rightarrow> string" where
  "prop_name p = (case p of Idx i \<Rightarrow> nat_to_string i | Key k \<Rightarrow> k)"

definition seg_index :: "seg \<Rightarrow> nat option" where
  "seg_index p =
     (case p of Idx i \<Rightarrow> (if i < 4294967295 then Some i else None) | Key k \<Rightarrow> array_index k)"

definition Object_prototype_names :: "string list" where
  "Object_prototype_names =
     [''constructor'', ''__defineGetter__'', ''__defineSetter__'', ''hasOwnProperty'',
      ''__lookupGetter__'', ''__lookupSetter__'', ''isPrototypeOf'', ''propertyIsEnumerable'',
      ''toString'', ''valueOf'', ''__proto__'', ''toLocaleString'']"

text \<open>
  \<open>target[p]\<close>. Reading \<open>undefined\<close> or \<open>null\<close> throws. An object answers with its
  own property, with \<open>undefined\<close> where it has none, and with an inherited function
  (outside the model) for the names of \<open>Object.prototype\<close>. An array and a primitive
  are modelled at index names only.
\<close>

fun get_prop :: "jsvalue \<Rightarrow> seg \<Rightarrow> jsvalue outcome" where
  "get_prop JUndefined p = Throws TypeError"
| "get_prop JNull p = Throws TypeError"
| "get_prop (JObj kvs) p =
     (case map_of kvs (prop_name p) of
        Some v \<Rightarrow> Returns v
      | None \<Rightarrow> if prop_name p \<in> set Object_prototype_names then Outside else Returns JUndefined)"
| "get_prop (JArr xs) p =
     (case seg_index p of
        Some i \<Rightarrow> Returns (if i < length xs then xs ! i else JUndefined)
      | None \<Rightarrow> Outside)"
| "get_prop (JStr s) p =
     (case seg_index p of
        Some i \<Rightarrow> Returns (if i < length s then JStr [s ! i] else JUndefined)
      | None \<Rightarrow> Outside)"
| "get_prop (JBool b) p = (case seg_index p of Some i \<Rightarrow> Returns JUndefined | None \<Rightarrow> Outside)"
| "get_prop (JNum n) p = (case seg_index p of Some i \<Rightarrow> Returns JUndefined | None \<Rightarrow> Outside)"

text \<open>
  \<open>target[p] = v\<close> in strict mode (the file is an ES module); the result is the
  target after the assignment. Writing past the end of an array leaves holes, which
  read as \<open>undefined\<close>. A primitive takes no property: \<open>TypeError\<close>.
\<close>

fun set_prop :: "jsvalue \<Rightarrow> seg \<Rightarrow> jsvalue \<Rightarrow> jsvalue outcome" where
  "set_prop JUndefined p v = Throws TypeError"
| "set_prop JNull p v = Throws TypeError"
| "set_prop (JObj kvs) p v =
     (if prop_name p = ''__proto__'' then Outside
      else Returns (JObj (obj_put (prop_name p) v kvs)))"
| "set_prop (JArr xs) p v =
     (case seg_index p of
        Some i \<Rightarrow>
          Returns (JArr (if i < length xs then xs[i := v]
                         else xs @ replicate (i - length xs) JUndefined @ [v]))
      | None \<Rightarrow> Outside)"
| "set_prop (JStr s) p v = (if prop_name p = ''__proto__'' then Outside else Throws TypeError)"
| "set_prop (JBool b) p v = (if prop_name p = ''__proto__'' then Outside else Throws TypeError)"
| "set_prop (JNum n) p v = (if prop_name p = ''__proto__'' then Outside else Throws TypeError)"

text \<open>
  The container \<open>target\<close> once the object in its slot \<open>p\<close> has become \<open>child\<close>:
  the slot holds a reference, so a mutation of the child shows in the parent. A
  primitive in the slot is never mutated.
\<close>

fun put_slot :: "jsvalue \<Rightarrow> seg \<Rightarrow> jsvalue \<Rightarrow> jsvalue" where
  "put_slot (JObj kvs) p child =
     JObj (obj_update (prop_name p) child kvs)"
| "put_slot (JArr xs) p child =
     (case seg_index p of Some i \<Rightarrow> JArr (xs[i := child]) | None \<Rightarrow> JArr xs)"
| "put_slot target p child = target"

section \<open>The functions of \<open>NodeModal/index.tsx\<close>\<close>

subsection \<open>\<open>inferValue\<close>\<close>

text \<open>The test \<open>/^-?\d+(?:\.\d+)?$/\<close>.\<close>

definition numeric_pattern :: "string \<Rightarrow> bool" where
  "numeric_pattern val =
     (let s1 = (if val \<noteq> [] \<and> hd val = CHR ''-'' then tl val else val);
          rest = dropWhile is_digit s1
      in takeWhile is_digit s1 \<noteq> []
         \<and> (rest = [] \<or> (hd rest = CHR ''.'' \<and> tl rest \<noteq> [] \<and> list_all is_digit (tl rest))))"

text \<open>\<open>Number(val)\<close> for a string of that shape (it is applied to no other).\<close>

definition Number_of :: "string \<Rightarrow> number" where
  "Number_of val =
     (let neg = (val \<noteq> [] \<and> hd val = CHR ''-'');
          s1 = (if neg then tl val else val);
          ip = takeWhile is_digit s1;
          fp = tl (dropWhile is_digit s1)
      in number_of_digits neg (ip @ fp) (- int (length fp)))"

definition inferValue :: "string \<Rightarrow> jsvalue outcome" where
  "inferValue val =
     (if val = [] then Returns JNull
      else
        (case JSON_parse val of
           Returns v \<Rightarrow> Returns v
         | Outside \<Rightarrow> Outside
         | Throws e \<Rightarrow>
             if numeric_pattern val then Returns (JNum (Number_of val))
             else if val = ''true'' then Returns (JBool True)
             else if val = ''false'' then Returns (JBool False)
             else Returns (JStr val)))"

subsection \<open>\<open>setAtPath\<close>\<close>

text \<open>
  The loop over the path from \<open>target\<close>, then \<open>fin\<close> on the target it ends at. The
  result is the object \<open>target\<close> referred to at the start, after the assignments.
\<close>

fun walk :: "jsvalue \<Rightarrow> seg list \<Rightarrow> (jsvalue \<Rightarrow> jsvalue outcome) \<Rightarrow> jsvalue outcome" where
  "walk target [] fin = fin target"
| "walk target (p # ps) fin =
     obind (get_prop target p) (\<lambda>child.
       if child = JUndefined then
         (let fresh = (case ps of Idx i # _ \<Rightarrow> JArr [] | _ \<Rightarrow> JObj [])
          in obind (set_prop target p fresh) (\<lambda>target'.
             obind (walk fresh ps fin) (\<lambda>fresh'.
             Returns (put_slot target' p fresh'))))
       else
         obind (walk child ps fin) (\<lambda>child'.
         Returns (put_slot target p child')))"

definition setAtPath :: "jsvalue \<Rightarrow> seg list option \<Rightarrow> string option \<Rightarrow> jsvalue \<Rightarrow> jsvalue outcome" where
  "setAtPath obj path key v =
     (let ps = (case path of None \<Rightarrow> [] | Some ps \<Rightarrow> ps)
      in case key of
           None \<Rightarrow> obind (walk obj ps Returns) (\<lambda>_. Returns v)
         | Some k \<Rightarrow> walk obj ps (\<lambda>target. set_prop target (Key k) v))"

subsection \<open>Rows and nodes\<close>

text \<open>
  \<open>NodeData\<close> is declared in \<^verbatim>\<open>types/graph\<close>: the rows \<open>text\<close> of the selected
  node, each with a \<open>key\<close> (a string or \<open>null\<close>), a \<open>value\<close> and a \<open>type\<close> tag, and
  the \<open>path\<close> of the node in the document.
\<close>

record row =
  row_key :: "string option"
  row_value :: jsvalue
  row_type :: string

record node =
  node_text :: "row list"
  node_path :: "seg list option"

text \<open>\<open>row.key\<close> as a condition: \<open>null\<close> and the empty string are falsy.\<close>

definition key_truthy :: "row \<Rightarrow> bool" where
  "key_truthy r = (case row_key r of None \<Rightarrow> False | Some k \<Rightarrow> k \<noteq> [])"

text \<open>
  The test the file repeats four times:
  \<^verbatim>\<open>row.type !== "array" && row.type !== "object" && row.key && row.key !== "details"\<close>.
\<close>

definition editable :: "row \<Rightarrow> bool" where
  "editable r =
     (row_type r \<noteq> ''array'' \<and> row_type r \<noteq> ''object'' \<and> key_truthy r
      \<and> row_key r \<noteq> Some ''details'')"

text \<open>\<open>String(row.value ?? "")\<close>.\<close>

definition value_text :: "jsvalue \<Rightarrow> string" where
  "value_text v = (if v = JNull \<or> v = JUndefined then [] else to_string v)"

subsection \<open>\<open>normalizeNodeData\<close>\<close>

text \<open>
  The object \<open>obj\<close> as the \<open>forEach\<close> fills it, by \<open>obj[row.key] = row.value\<close>.
\<close>

fun display_object :: "row list \<Rightarrow> jsvalue \<Rightarrow> jsvalue outcome" where
  "display_object [] obj = Returns obj"
| "display_object (r # rs) obj =
     (if editable r then
        (case row_key r of
           Some k \<Rightarrow> obind (set_prop obj (Key k) (row_value r)) (display_object rs)
         | None \<Rightarrow> display_object rs obj)
      else display_object rs obj)"

definition normalizeNodeData :: "row list \<Rightarrow> string outcome" where
  "normalizeNodeData nodeRows =
     (if nodeRows = [] then Returns ''{}''
      else if length nodeRows = 1 \<and> \<not> key_truthy (hd nodeRows)
        then Returns (to_string (row_value (hd nodeRows)))
      else
        obind (display_object nodeRows (JObj [])) (\<lambda>obj.
        case JSON_stringify_2 obj of Some t \<Rightarrow> Returns t | None \<Rightarrow> Outside))"

subsection \<open>\<open>jsonPathToString\<close>\<close>

definition jsonPathToString :: "seg list option \<Rightarrow> string" where
  "jsonPathToString path =
     (case path of
        None \<Rightarrow> ''$''
      | Some ps \<Rightarrow>
          if ps = [] then ''$''
          else ''$['' @ join ''][''
                 (map (\<lambda>seg. case seg of Idx n \<Rightarrow> nat_to_string n
                                        | Key k \<Rightarrow> [CHR 0x22] @ k @ [CHR 0x22]) ps)
               @ '']'')"

subsection \<open>The edit buffer\<close>

text \<open>
  The \<open>forEach\<close> of the effect and of the Cancel button, from row \<open>idx\<close> on:
  \<open>map[idx] = String(row.value ?? "")\<close> for the editable rows.
\<close>

fun seed_from :: "nat \<Rightarrow> row list \<Rightarrow> (nat \<rightharpoonup> string) \<Rightarrow> (nat \<rightharpoonup> string)" where
  "seed_from idx [] m = m"
| "seed_from idx (r # rs) m =
     seed_from (Suc idx) rs (if editable r then m(idx \<mapsto> value_text (row_value r)) else m)"

definition seed :: "node option \<Rightarrow> (nat \<rightharpoonup> string)" where
  "seed nodeData =
     (case nodeData of None \<Rightarrow> Map.empty | Some n \<Rightarrow> seed_from 0 (node_text n) Map.empty)"

text \<open>
  The inputs of the edit view, one for each row the \<open>map\<close> does not skip: the row
  index, the label and the text shown.
\<close>

fun edit_inputs_from :: "nat \<Rightarrow> row list \<Rightarrow> (nat \<rightharpoonup> string) \<Rightarrow> (nat \<times> string \<times> string) list" where
  "edit_inputs_from idx [] ev = []"
| "edit_inputs_from idx (r # rs) ev =
     (if row_type r = ''array'' \<or> row_type r = ''object'' then edit_inputs_from (Suc idx) rs ev
      else
        (case row_key r of
           None \<Rightarrow> edit_inputs_from (Suc idx) rs ev
         | Some k \<Rightarrow>
             if k = [] \<or> k = ''details'' then edit_inputs_from (Suc idx) rs ev
             else (idx, k, (case ev idx of Some t \<Rightarrow> t | None \<Rightarrow> value_text (row_value r)))
                  # edit_inputs_from (Suc idx) rs ev))"

definition edit_inputs :: "node option \<Rightarrow> (nat \<rightharpoonup> string) \<Rightarrow> (nat \<times> string \<times> string) list" where
  "edit_inputs nodeData ev =
     (case nodeData of None \<Rightarrow> [] | Some n \<Rightarrow> edit_inputs_from 0 (node_text n) ev)"

subsection \<open>\<open>handleSave\<close>\<close>

text \<open>
  \<open>{ ...jsonObj }\<close>: a new object with the own enumerable properties of the value. An
  array gives its elements under their indices, a string its characters, any other
  primitive nothing. The copy is shallow, but \<open>jsonObj\<close> is not read again.
\<close>

fun spread :: "jsvalue \<Rightarrow> jsvalue" where
  "spread (JObj kvs) = JObj kvs"
| "spread (JArr xs) =
     JObj (concat (map (\<lambda>i. if xs ! i = JUndefined then [] else [(nat_to_string i, xs ! i)])
                     [0 ..< length xs]))"
| "spread (JStr s) = JObj (map (\<lambda>i. (nat_to_string i, JStr [s ! i])) [0 ..< length s])"
| "spread v = JObj []"

text \<open>The \<open>forEach\<close> of the composite branch, from row \<open>idx\<close> on, over \<open>updated\<close>.\<close>

fun apply_rows ::
  "seg list option \<Rightarrow> (nat \<rightharpoonup> string) \<Rightarrow> nat \<Rightarrow> row list \<Rightarrow> jsvalue \<Rightarrow> jsvalue outcome" where
  "apply_rows path ev idx [] updated = Returns updated"
| "apply_rows path ev idx (r # rs) updated =
     (if editable r then
        (case ev idx of
           None \<Rightarrow> apply_rows path ev (Suc idx) rs updated
         | Some edited \<Rightarrow>
             obind (inferValue edited) (\<lambda>parsed.
             obind (setAtPath updated path (row_key r) parsed) (\<lambda>updated'.
             apply_rows path ev (Suc idx) rs updated')))
      else apply_rows path ev (Suc idx) rs updated)"

text \<open>
  The value that \<open>handleSave\<close> hands to \<open>JSON.stringify\<close>: \<open>newObj\<close> in the branch
  of a single row without a key, \<open>updated\<close> otherwise.
\<close>

definition new_document :: "node option \<Rightarrow> (nat \<rightharpoonup> string) \<Rightarrow> jsvalue \<Rightarrow> jsvalue outcome" where
  "new_document nodeData ev jsonObj =
     (case nodeData of
        None \<Rightarrow> Returns (spread jsonObj)
      | Some n \<Rightarrow>
          if length (node_text n) = 1 \<and> \<not> key_truthy (hd (node_text n)) then
            obind (inferValue (case ev 0 of Some t \<Rightarrow> t | None \<Rightarrow> [])) (\<lambda>newVal.
            setAtPath jsonObj (node_path n) None newVal)
          else apply_rows (node_path n) ev 0 (node_text n) (spread jsonObj))"

text \<open>
  The collaborators, from \<^verbatim>\<open>lib/utils/jsonAdapter\<close> and \<^verbatim>\<open>store/useFile\<close>: they
  are parameters here. A rejected promise is a \<open>Throws\<close> at the \<open>await\<close>.
\<close>

record collaborators =
  contentToJson :: "string \<Rightarrow> string \<Rightarrow> jsvalue outcome"
  jsonToContent :: "string \<Rightarrow> string \<Rightarrow> string outcome"
  setContents :: "string \<Rightarrow> unit outcome"

text \<open>
  The state: the selected node of the graph store, the two \<open>useState\<close> cells, the
  \<open>opened\<close> prop (which \<open>onClose\<close> clears), the contents and format of the file
  store, and what \<open>console.warn\<close> has logged.
\<close>

record modal =
  selectedNode :: "node option"
  editedValues :: "nat \<rightharpoonup> string"
  editMode :: bool
  opened :: bool
  contents :: string
  format :: string
  warned :: "exn list"

definition save_body :: "collaborators \<Rightarrow> modal \<Rightarrow> modal outcome" where
  "save_body c s =
     obind (contentToJson c (contents s) (format s)) (\<lambda>jsonObj.
     obind (new_document (selectedNode s) (editedValues s) jsonObj) (\<lambda>newObj.
     obind (case JSON_stringify newObj of Some t \<Rightarrow> Returns t | None \<Rightarrow> Outside) (\<lambda>json.
     obind (jsonToContent c json (format s)) (\<lambda>newContent.
     obind (setContents c newContent) (\<lambda>_.
     Returns (s\<lparr>contents := newContent, opened := False\<rparr>))))))"

text \<open>The \<open>try\<close> around the body: the \<open>catch\<close> logs and returns.\<close>

definition handleSave :: "collaborators \<Rightarrow> modal \<Rightarrow> modal outcome" where
  "handleSave c s =
     (case save_body c s of
        Returns s' \<Rightarrow> Returns s'
      | Throws err \<Rightarrow> Returns (s\<lparr>warned := warned s @ [err]\<rparr>)
      | Outside \<Rightarrow> Outside)"

subsection \<open>The handlers of the component\<close>

text \<open>The effect on \<open>[opened, nodeData]\<close>.\<close>

definition on_open :: "modal \<Rightarrow> modal" where
  "on_open s =
     (if \<not> opened s then s
      else s\<lparr>editedValues := seed (selectedNode s), editMode := False\<rparr>)"

definition setEditedValue :: "nat \<Rightarrow> string \<Rightarrow> modal \<Rightarrow> modal" where
  "setEditedValue idx v s = s\<lparr>editedValues := (editedValues s)(idx \<mapsto> v)\<rparr>"

definition edit_click :: "modal \<Rightarrow> modal" where
  "edit_click s = s\<lparr>editMode := True\<rparr>"


text \<open>\<open>await handleSave(); setEditMode(false)\<close>.\<close>

definition save_click :: "collaborators \<Rightarrow> modal \<Rightarrow> modal outcome" where
  "save_click c s = obind (handleSave c s) (\<lambda>s'. Returns (s'\<lparr>editMode := False\<rparr>))"

section \<open>What the specification says, and the examples\<close>

text \<open>
  How the specification words \<open>formatPath\<close>: \<open>[N]\<close> for a numeric segment,
  \<open>["key"]\<close> for a string segment, the key as it is.
\<close>

definition render_segment :: "seg \<Rightarrow> string" where
  "render_segment seg =
     (case seg of
        Idx n \<Rightarrow> ''['' @ nat_to_string n @ '']''
      | Key k \<Rightarrow> ''['' @ [CHR 0x22] @ k @ [CHR 0x22] @ '']'')"

text \<open>
  What the specification says \<open>setAtPath\<close> makes for the segments \<open>ps\<close> that follow a
  missing slot: for each of them a container, an array with the slot at its index when
  the segment is a number and an object with the one key otherwise, and at the end
  the object that holds \<open>key\<close>.
\<close>

fun fresh_chain :: "seg list \<Rightarrow> string \<Rightarrow> jsvalue \<Rightarrow> jsvalue" where
  "fresh_chain [] key v = JObj [(key, v)]"
| "fresh_chain (Idx i # ps) key v = JArr (replicate i JUndefined @ [fresh_chain ps key v])"
| "fresh_chain (Key k # ps) key v = JObj [(k, fresh_chain ps key v)]"

text \<open>
  The segments the model follows into a fresh container: an array index, or a key
  that \<open>Object.prototype\<close> does not define.
\<close>

definition plain_seg :: "seg \<Rightarrow> bool" where
  "plain_seg p =
     (case p of Idx i \<Rightarrow> i < 4294967295 | Key k \<Rightarrow> k \<notin> set Object_prototype_names)"

text \<open>The value at the end of a path all of whose slots exist.\<close>

fun descend :: "jsvalue \<Rightarrow> seg list \<Rightarrow> jsvalue option" where
  "descend t [] = Some t"
| "descend t (p # ps) =
     (case get_prop t p of
        Returns child \<Rightarrow> if child = JUndefined then None else descend child ps
      | Throws e \<Rightarrow> None
      | Outside \<Rightarrow> None)"




text \<open>
  Modelled from the spec: the collaborators of its section 6 for a document in the
  JSON format, which are not in the file under study. \<open>contentToJson\<close> parses the text,
  \<open>jsonToContent\<close> hands the JSON text on as it is, \<open>setContents\<close> resolves. They
  stand for the parameters in the examples only.
\<close>

definition json_collaborators :: collaborators where
  "json_collaborators =
     \<lparr>contentToJson = (\<lambda>text fmt. JSON_parse text),
      jsonToContent = (\<lambda>json fmt. Returns json),
      setContents = (\<lambda>text. Returns ())\<rparr>"

text \<open>The modal open on a node, in edit mode, over a JSON file.\<close>

definition editing :: "node \<Rightarrow> (nat \<rightharpoonup> string) \<Rightarrow> string \<Rightarrow> modal" where
  "editing n ev text =
     \<lparr>selectedNode = Some n, editedValues = ev, editMode = True, opened = True,
      contents = text, format = ''json'', warned = []\<rparr>"

definition count_node :: node where
  "count_node =
     \<lparr>node_text = [\<lparr>row_key = None, row_value = JNum (Dec 5 0), row_type = ''number''\<rparr>],
      node_path = Some [Key ''count'']\<rparr>"

definition user_node :: node where
  "user_node =
     \<lparr>node_text = [\<lparr>row_key = Some ''name'', row_value = JStr ''Alice'', row_type = ''string''\<rparr>],
      node_path = Some [Key ''user'']\<rparr>"

definition mixed_node :: node where
  "mixed_node =
     \<lparr>node_text =
        [\<lparr>row_key = Some ''id'', row_value = JNum (Dec 7 0), row_type = ''number''\<rparr>,
         \<lparr>row_key = Some ''tags'', row_value = JStr ''[2 items]'', row_type = ''array''\<rparr>,
         \<lparr>row_key = Some ''details'', row_value = JStr ''more'', row_type = ''string''\<rparr>,
         \<lparr>row_key = None, row_value = JStr ''loose'', row_type = ''string''\<rparr>,
         \<lparr>row_key = Some ''note'', row_value = JNull, row_type = ''null''\<rparr>],
      node_path = Some []\<rparr>"



section \<open>Evaluation on concrete inputs\<close>

lemma digits_of_numeral:
  "digits_of (numeral k) =
     (if (numeral k :: nat) < 10 then [''0123456789'' ! numeral k]
      else digits_of (numeral k div 10) @ [''0123456789'' ! (numeral k mod 10)])"
  by (rule digits_of.simps)

lemma digits_of_0: "digits_of 0 = ''0''"
  by (simp add: digits_of.simps)

lemma digits_of_1: "digits_of 1 = ''1''" "digits_of (Suc 0) = ''1''"
  by (simp_all add: digits_of.simps)

lemma replicate_numeral: "replicate (numeral k) x = x # replicate (numeral k - 1) x"
  by (simp add: numeral_eq_Suc)

lemma list_update_numeral: "(x # xs)[numeral k := y] = x # xs[pred_numeral k := y]"
  by (simp add: numeral_eq_Suc)

lemmas number_eval =
  is_digit_def digit_val_def nat_of_digits_def number_of_digits_def normalize.simps
  number_to_string_def nat_to_string_def Let_def
  digits_of_numeral digits_of_0 digits_of_1 replicate_numeral

lemmas parse_eval =
  JSON_parse_def tokenize.simps(2) tok_cons_def lex_number_def lex_fraction_def lex_exponent_def
  lex_cons_def lex_wide_def unescape_def is_hex_def hex_val_def
  obj_put_def key_before_def array_index_def number_eval

section \<open>The value inferencer\<close>

text \<open>
  C8. \<open>inferValue\<close> on the five inputs of the specification: the empty string is
  \<open>null\<close>; \<open>42\<close>, \<open>true\<close> and \<open>{"a":1}\<close> are what \<open>JSON.parse\<close> returns; \<open>hello\<close>
  is no JSON text, no numeral and no boolean literal, and stays a string. The numeral
  branch is reached by a text that \<open>JSON.parse\<close> refuses, such as \<open>007\<close>.
\<close>

theorem inferValue_examples:
  \<open>inferValue [] = Returns JNull
   \<and> JSON_parse ''42'' = Returns (JNum (Dec 42 0))
   \<and> inferValue ''42'' = Returns (JNum (Dec 42 0))
   \<and> JSON_parse ''true'' = Returns (JBool True)
   \<and> inferValue ''true'' = Returns (JBool True)
   \<and> JSON_parse ''{"a":1}'' = Returns (JObj [(''a'', JNum (Dec 1 0))])
   \<and> inferValue ''{"a":1}'' = Returns (JObj [(''a'', JNum (Dec 1 0))])
   \<and> JSON_parse ''hello'' = Throws SyntaxError
   \<and> numeric_pattern ''hello'' = False
   \<and> inferValue ''hello'' = Returns (JStr ''hello'')
   \<and> JSON_parse ''007'' = Throws SyntaxError
   \<and> numeric_pattern ''007'' = True
   \<and> inferValue ''007'' = Returns (JNum (Dec 7 0))\<close>
  by (simp add: inferValue_def parse_eval numeric_pattern_def Number_of_def)

text \<open>
  C9. \<open>inferValue\<close> never throws, whatever the text: the \<open>SyntaxError\<close> of
  \<open>JSON.parse\<close> is caught and every branch of the handler returns. It returns a value
  of the model unless \<open>JSON.parse\<close> returns one that is outside it. The result is a
  function of the text alone (the source reads nothing else), and the parser is a
  terminating recursion on the text.
\<close>

theorem inferValue_total:
  "(\<forall>e. inferValue r \<noteq> Throws e)
   \<and> ((\<exists>v. inferValue r = Returns v) \<or> (inferValue r = Outside \<and> JSON_parse r = Outside))"
  by (cases "JSON_parse r") (simp_all add: inferValue_def)

section \<open>The path formatter\<close>

lemma join_brackets:
  "ps \<noteq> [] \<Longrightarrow> ''['' @ join '']['' (map f ps) @ '']'' = concat (map (\<lambda>p. ''['' @ f p @ '']'') ps)"
proof (induction ps)
  case Nil
  then show ?case by simp
next
  case (Cons p ps)
  show ?case
  proof (cases ps)
    case Nil
    then show ?thesis by (simp add: join_def)
  next
    case (Cons q qs)
    with Cons.IH have "''['' @ join '']['' (map f ps) @ '']'' = concat (map (\<lambda>p. ''['' @ f p @ '']'') ps)"
      by simp
    with Cons show ?thesis by (simp add: join_def)
  qed
qed




text \<open>
  C10. The absent and the empty path print as \<open>$\<close>; any path prints as \<open>$\<close>
  followed by its segments in order, each rendered as the specification says, a numeric
  segment by \<open>Number::toString\<close> (its decimal digits below \<open>10^21\<close>, by
  \<open>nat_to_string_digits\<close>); the path \<open>["a", 1, "b"]\<close> prints as \<open>$["a"][1]["b"]\<close>.
\<close>

theorem jsonPathToString_format:
  \<open>jsonPathToString None = ''$''
   \<and> jsonPathToString (Some []) = ''$''
   \<and> jsonPathToString (Some ps) = ''$'' @ concat (map render_segment ps)
   \<and> jsonPathToString (Some [Key ''a'', Idx 1, Key ''b'']) = ''$["a"][1]["b"]''\<close>
proof -
  have "jsonPathToString (Some ps) = ''$'' @ concat (map render_segment ps)"
  proof (cases "ps = []")
    case True
    then show ?thesis by (simp add: jsonPathToString_def)
  next
    case False
    have "(\<lambda>p. ''['' @ (case p of Idx n \<Rightarrow> nat_to_string n | Key k \<Rightarrow> [CHR 0x22] @ k @ [CHR 0x22]) @ '']'')
          = render_segment"
      by (rule ext) (simp add: render_segment_def split: seg.splits)
    with False join_brackets [OF False, of "\<lambda>seg. case seg of Idx n \<Rightarrow> nat_to_string n | Key k \<Rightarrow> [CHR 0x22] @ k @ [CHR 0x22]"]
    show ?thesis by (simp add: jsonPathToString_def)
  qed
  moreover have \<open>jsonPathToString (Some [Key ''a'', Idx 1, Key ''b'']) = ''$["a"][1]["b"]''\<close>
    by (simp add: jsonPathToString_def join_def number_eval)
  ultimately show ?thesis by (simp add: jsonPathToString_def)
qed

section \<open>Own properties\<close>

lemma map_of_absent_keys: "map_of kvs k = None \<longleftrightarrow> k \<notin> fst ` set kvs"
  by (simp add: map_of_eq_None_iff)

lemma keys_obj_insert: "fst ` set (obj_insert k v kvs) = insert k (fst ` set kvs)"
  by (induction kvs) (fastforce split: if_splits simp: image_iff)+

lemma keys_obj_update: "fst ` set (obj_update k v kvs) = fst ` set kvs"
  by (induction kvs) (fastforce split: if_splits simp: image_iff)+

lemma keys_obj_put: "fst ` set (obj_put k v kvs) = insert k (fst ` set kvs)"
  by (auto simp: obj_put_def keys_obj_insert keys_obj_update map_of_absent_keys)

lemma map_of_obj_insert:
  "map_of kvs k = None \<Longrightarrow> map_of (obj_insert k v kvs) k = Some v"
  by (induction kvs) (auto split: if_splits)

lemma map_of_obj_update:
  "map_of kvs k = Some w \<Longrightarrow> map_of (obj_update k v kvs) k = Some v"
  by (induction kvs) (auto split: if_splits)

lemma map_of_obj_put: "map_of (obj_put k v kvs) k = Some v"
  by (cases "map_of kvs k") (auto simp: obj_put_def map_of_obj_insert map_of_obj_update)

lemma map_of_obj_insert_other:
  "k' \<noteq> k \<Longrightarrow> map_of (obj_insert k v kvs) k' = map_of kvs k'"
  by (induction kvs) auto

lemma map_of_obj_update_other:
  "k' \<noteq> k \<Longrightarrow> map_of (obj_update k v kvs) k' = map_of kvs k'"
  by (induction kvs) auto

lemma map_of_obj_put_other:
  "k' \<noteq> k \<Longrightarrow> map_of (obj_put k v kvs) k' = map_of kvs k'"
  by (simp add: obj_put_def map_of_obj_insert_other map_of_obj_update_other)



section \<open>The row projections\<close>

lemma editable_key: "editable r \<Longrightarrow> \<exists>k. row_key r = Some k \<and> k \<noteq> [] \<and> k \<noteq> ''details''"
  by (cases "row_key r") (auto simp: editable_def key_truthy_def)

lemma seed_from_lookup:
  "seed_from i rs m j =
     (if i \<le> j \<and> j < i + length rs \<and> editable (rs ! (j - i))
      then Some (value_text (row_value (rs ! (j - i)))) else m j)"
proof (induction rs arbitrary: i m j)
  case Nil
  then show ?case by auto
next
  case (Cons r rs)
  show ?case
  proof (cases "j = i")
    case True
    then show ?thesis by (simp add: Cons.IH)
  next
    case False
    then show ?thesis
      by (cases "i < j") (auto simp: Cons.IH Suc_diff_Suc nth_Cons' Suc_le_eq)
  qed
qed

lemma display_object_proto:
  "\<exists>r \<in> set rs. editable r \<and> row_key r = Some ''__proto__'' \<Longrightarrow>
   display_object rs (JObj obj) = Outside"
proof (induction rs arbitrary: obj)
  case Nil
  then show ?case by simp
next
  case (Cons r rs)
  show ?case
  proof (cases "editable r \<and> row_key r = Some ''__proto__''")
    case True
    then show ?thesis by (simp add: prop_name_def obind_def)
  next
    case False
    with Cons.prems have rest: "\<exists>r \<in> set rs. editable r \<and> row_key r = Some ''__proto__''"
      by auto
    show ?thesis
    proof (cases "editable r")
      case no: False
      with Cons.IH [OF rest] show ?thesis by simp
    next
      case True
      then obtain k where k: "row_key r = Some k" using editable_key by blast
      with True False have "k \<noteq> ''__proto__''" by simp
      with True k Cons.IH [OF rest] show ?thesis by (simp add: prop_name_def obind_def)
    qed
  qed
qed

lemma display_object_keys:
  "\<not> (\<exists>r \<in> set rs. editable r \<and> row_key r = Some ''__proto__'') \<Longrightarrow>
   \<exists>kvs. display_object rs (JObj obj) = Returns (JObj kvs)
        \<and> fst ` set kvs = fst ` set obj \<union> {k. \<exists>r \<in> set rs. editable r \<and> row_key r = Some k}"
proof (induction rs arbitrary: obj)
  case Nil
  then show ?case by simp
next
  case (Cons r rs)
  then have rest: "\<not> (\<exists>r \<in> set rs. editable r \<and> row_key r = Some ''__proto__'')" by simp
  show ?case
  proof (cases "editable r")
    case False
    with Cons.IH [OF rest, of obj] show ?thesis by auto
  next
    case True
    then obtain k where k: "row_key r = Some k" using editable_key by blast
    with True Cons.prems have np: "k \<noteq> ''__proto__''" by auto
    from Cons.IH [OF rest, of "obj_put k (row_value r) obj"] obtain kvs where
      "display_object rs (JObj (obj_put k (row_value r) obj)) = Returns (JObj kvs)"
      "fst ` set kvs = fst ` set (obj_put k (row_value r) obj)
                       \<union> {k. \<exists>r \<in> set rs. editable r \<and> row_key r = Some k}"
      by blast
    with True k np show ?thesis by (auto simp: prop_name_def obind_def keys_obj_put)
  qed
qed

text \<open>
  C6. A row enters the edit buffer exactly when it passes the test of the file (its
  entry is then \<open>String(value ?? "")\<close>), and the keys of the object that
  \<open>normalizeNodeData\<close> builds are exactly the keys of the rows that pass it (the
  key \<open>__proto__\<close>, which is no own property when it is assigned, is outside the
  model). A row of type \<open>array\<close> or \<open>object\<close>, a row without a key and a row with the
  key \<open>details\<close> do not pass.
\<close>

theorem editable_rows_only:
  "(\<forall>idx. seed (Some n) idx =
      (if idx < length (node_text n) \<and> editable (node_text n ! idx)
       then Some (value_text (row_value (node_text n ! idx))) else None))
   \<and> (if \<exists>r \<in> set (node_text n). editable r \<and> row_key r = Some ''__proto__''
       then display_object (node_text n) (JObj []) = Outside
       else \<exists>kvs. display_object (node_text n) (JObj []) = Returns (JObj kvs)
              \<and> fst ` set kvs = {k. \<exists>r \<in> set (node_text n). editable r \<and> row_key r = Some k})
   \<and> (\<forall>r. row_type r = ''array'' \<or> row_type r = ''object'' \<or> row_key r = None
            \<or> row_key r = Some [] \<or> row_key r = Some ''details'' \<longrightarrow> \<not> editable r)"
proof -
  have buffer: "seed (Some n) idx =
      (if idx < length (node_text n) \<and> editable (node_text n ! idx)
       then Some (value_text (row_value (node_text n ! idx))) else None)" for idx
    by (simp add: seed_def seed_from_lookup)
  have shown: "if \<exists>r \<in> set (node_text n). editable r \<and> row_key r = Some ''__proto__''
       then display_object (node_text n) (JObj []) = Outside
       else \<exists>kvs. display_object (node_text n) (JObj []) = Returns (JObj kvs)
              \<and> fst ` set kvs = {k. \<exists>r \<in> set (node_text n). editable r \<and> row_key r = Some k}"
  proof (cases "\<exists>r \<in> set (node_text n). editable r \<and> row_key r = Some ''__proto__''")
    case True
    from display_object_proto [OF True, of "[]"] show ?thesis
      unfolding if_P [OF True] .
  next
    case False
    from display_object_keys [OF False, of "[]"] show ?thesis
      unfolding if_not_P [OF False] by simp
  qed
  have excluded: "\<forall>r. row_type r = ''array'' \<or> row_type r = ''object'' \<or> row_key r = None
            \<or> row_key r = Some [] \<or> row_key r = Some ''details'' \<longrightarrow> \<not> editable r"
    by (auto simp: editable_def key_truthy_def)
  show ?thesis using buffer shown excluded by blast
qed

section \<open>Examples\<close>

lemmas access_eval =
  setAtPath_def obind_def prop_name_def seg_index_def Object_prototype_names_def

lemmas save_eval =
  handleSave_def save_body_def new_document_def key_truthy_def editable_def
  JSON_stringify_def quote_def escape_char_def join_def

theorem editable_rows_only_witness:
  \<open>seed (Some mixed_node) 0 = Some ''7''
   \<and> seed (Some mixed_node) 1 = None
   \<and> seed (Some mixed_node) 2 = None
   \<and> seed (Some mixed_node) 3 = None
   \<and> seed (Some mixed_node) 4 = Some []
   \<and> display_object (node_text mixed_node) (JObj [])
       = Returns (JObj [(''id'', JNum (Dec 7 0)), (''note'', JNull)])
   \<and> {k. \<exists>r \<in> set (node_text mixed_node). editable r \<and> row_key r = Some k} = {''id'', ''note''}\<close>
proof -
  have e: "{k. \<exists>r \<in> set (node_text mixed_node). editable r \<and> row_key r = Some k} = {''id'', ''note''}"
    by (auto simp: mixed_node_def editable_def key_truthy_def)
  have np: "\<not> (\<exists>r \<in> set (node_text mixed_node). editable r \<and> row_key r = Some ''__proto__'')"
    by (simp add: mixed_node_def editable_def key_truthy_def)
  have d: "display_object (node_text mixed_node) (JObj [])
           = Returns (JObj [(''id'', JNum (Dec 7 0)), (''note'', JNull)])"
    by (simp add: mixed_node_def editable_def key_truthy_def prop_name_def obind_def obj_put_def
          key_before_def array_index_def is_digit_def)
  show ?thesis
    using editable_rows_only [of mixed_node] e np d
    by (simp add: mixed_node_def editable_def key_truthy_def value_text_def number_eval)
qed

text \<open>What \<open>normalizeNodeData\<close> shows for these rows, and for the single row without a key.\<close>

lemma normalizeNodeData_examples:
  \<open>normalizeNodeData (node_text mixed_node)
     = Returns (''{'' @ [CHR 0x0A] @ ''  "id": 7,'' @ [CHR 0x0A] @ ''  "note": null'' @ [CHR 0x0A] @ ''}'')
   \<and> normalizeNodeData (node_text count_node) = Returns ''5''
   \<and> normalizeNodeData [] = Returns ''{}''\<close>
  by (simp add: normalizeNodeData_def mixed_node_def count_node_def editable_def key_truthy_def
        prop_name_def obind_def obj_put_def key_before_def array_index_def is_digit_def
        JSON_stringify_2_def quote_def escape_char_def join_def number_eval)

text \<open>
  C1. The scalar branch on the input of the claim: the node is the single row without
  a key at path \<open>["count"]\<close>, the buffer is \<open>{0: "9"}\<close>, the document is
  \<open>{"count":5,"other":1}\<close>. \<open>setAtPath\<close> with the key \<open>null\<close> returns the new value
  itself, and \<open>handleSave\<close> serialises what it returns: the persisted document is
  \<open>9\<close>, not \<open>{"count":9,"other":1}\<close>. With the empty buffer it is \<open>null\<close>.
\<close>

theorem scalar_save_replaces_document:
  \<open>JSON_parse ''{"count":5,"other":1}''
     = Returns (JObj [(''count'', JNum (Dec 5 0)), (''other'', JNum (Dec 1 0))])
   \<and> new_document (Some count_node) [0 \<mapsto> ''9'']
       (JObj [(''count'', JNum (Dec 5 0)), (''other'', JNum (Dec 1 0))])
     = Returns (JNum (Dec 9 0))
   \<and> handleSave json_collaborators (editing count_node [0 \<mapsto> ''9''] ''{"count":5,"other":1}'')
     = Returns ((editing count_node [0 \<mapsto> ''9''] ''{"count":5,"other":1}'')
                 \<lparr>contents := ''9'', opened := False\<rparr>)
   \<and> handleSave json_collaborators (editing count_node Map.empty ''{"count":5,"other":1}'')
     = Returns ((editing count_node Map.empty ''{"count":5,"other":1}'')
                 \<lparr>contents := ''null'', opened := False\<rparr>)\<close>
  by (simp add: save_eval access_eval json_collaborators_def editing_def count_node_def
        inferValue_def parse_eval)

section \<open>Failure of a save\<close>

text \<open>Each collaborator that rejects makes the body of \<open>handleSave\<close> throw.\<close>

lemma save_body_parse_failure:
  "contentToJson c (contents s) (format s) = Throws err \<Longrightarrow> save_body c s = Throws err"
  by (simp add: save_body_def obind_def)

lemma save_body_serialize_failure:
  "contentToJson c (contents s) (format s) = Returns jsonObj \<Longrightarrow>
   new_document (selectedNode s) (editedValues s) jsonObj = Returns newObj \<Longrightarrow>
   JSON_stringify newObj = Some json \<Longrightarrow>
   jsonToContent c json (format s) = Throws err \<Longrightarrow>
   save_body c s = Throws err"
  by (simp add: save_body_def obind_def)

lemma save_body_persist_failure:
  "contentToJson c (contents s) (format s) = Returns jsonObj \<Longrightarrow>
   new_document (selectedNode s) (editedValues s) jsonObj = Returns newObj \<Longrightarrow>
   JSON_stringify newObj = Some json \<Longrightarrow>
   jsonToContent c json (format s) = Returns newContent \<Longrightarrow>
   setContents c newContent = Throws err \<Longrightarrow>
   save_body c s = Throws err"
  by (simp add: save_body_def obind_def)

text \<open>
  C2, as the specification states it, fails: the Save button runs
  \<open>setEditMode(false)\<close> after \<open>handleSave\<close> has returned, whether it saved or
  caught an error. Here the contents are not JSON, the parse throws, and the session
  that was in edit mode is in view mode afterwards.
\<close>

theorem save_failure_leaves_edit_mode:
  \<open>save_body json_collaborators (editing user_node [0 \<mapsto> ''Carol''] ''{"user":'')
     = Throws SyntaxError
   \<and> editMode (editing user_node [0 \<mapsto> ''Carol''] ''{"user":'') = True
   \<and> save_click json_collaborators (editing user_node [0 \<mapsto> ''Carol''] ''{"user":'')
     = Returns ((editing user_node [0 \<mapsto> ''Carol''] ''{"user":'')
                 \<lparr>warned := [SyntaxError], editMode := False\<rparr>)\<close>
  by (simp add: save_click_def save_eval access_eval json_collaborators_def editing_def
        user_node_def parse_eval)

text \<open>
  C2, amended. When the body of \<open>handleSave\<close> throws (a collaborator rejects, or
  \<open>setAtPath\<close> throws), \<open>handleSave\<close> returns with the error logged and nothing
  else changed: \<open>onClose\<close> is not called and the contents are as before. The Save
  button then leaves edit mode, as it does after a save that succeeds.
\<close>

theorem save_failure_is_logged:
  "save_body c s = Throws err \<Longrightarrow>
   handleSave c s = Returns (s\<lparr>warned := warned s @ [err]\<rparr>)
   \<and> save_click c s = Returns (s\<lparr>warned := warned s @ [err], editMode := False\<rparr>)"
  by (simp add: handleSave_def save_click_def obind_def)

theorem save_failure_is_logged_witness:
  \<open>save_body json_collaborators (editing user_node [0 \<mapsto> ''Carol''] ''{"user":'')
     = Throws SyntaxError
   \<and> handleSave json_collaborators (editing user_node [0 \<mapsto> ''Carol''] ''{"user":'')
     = Returns ((editing user_node [0 \<mapsto> ''Carol''] ''{"user":'')\<lparr>warned := [SyntaxError]\<rparr>)
   \<and> save_click json_collaborators (editing user_node [0 \<mapsto> ''Carol''] ''{"user":'')
     = Returns ((editing user_node [0 \<mapsto> ''Carol''] ''{"user":'')
                 \<lparr>warned := [SyntaxError], editMode := False\<rparr>)\<close>
proof -
  have t: \<open>save_body json_collaborators (editing user_node [0 \<mapsto> ''Carol''] ''{"user":'')
           = Throws SyntaxError\<close>
    by (simp add: save_body_def obind_def json_collaborators_def editing_def parse_eval)
  show ?thesis
    using save_failure_is_logged [OF t] t by (simp add: editing_def)
qed

section \<open>Saving a node that is a single row without a key\<close>

lemma inferValue_empty: "inferValue [] = Returns JNull"
  by (simp add: inferValue_def)

text \<open>
  C4. For a node of one row without a key, the effect on opening puts nothing in the
  buffer and the edit view shows no input, so nothing can be typed. \<open>handleSave\<close>
  then reads \<open>editedValues[0] ?? ""\<close>, the empty string, which \<open>inferValue\<close> turns into
  \<open>null\<close>; if the walk along the path does not throw, what the serialiser gets is the
  text \<open>null\<close>, and its result is what is persisted.
\<close>

theorem scalar_node_saves_null:
  assumes "node_text n = [r]" and "\<not> key_truthy r"
  shows "seed (Some n) = Map.empty
   \<and> edit_inputs (Some n) ev = []
   \<and> inferValue (case seed (Some n) 0 of Some t \<Rightarrow> t | None \<Rightarrow> []) = Returns JNull
   \<and> (selectedNode s = Some n \<and> opened s
        \<and> contentToJson c (contents s) (format s) = Returns jsonObj
        \<and> walk jsonObj (case node_path n of None \<Rightarrow> [] | Some ps \<Rightarrow> ps) Returns = Returns d
        \<and> jsonToContent c ''null'' (format s) = Returns newContent
        \<and> setContents c newContent = Returns ()
      \<longrightarrow> editedValues (edit_click (on_open s)) = Map.empty
          \<and> handleSave c (edit_click (on_open s))
              = Returns ((edit_click (on_open s))\<lparr>contents := newContent, opened := False\<rparr>))"
proof -
  from assms have ne: "\<not> editable r" by (simp add: editable_def)
  with assms have sd: "seed (Some n) = Map.empty" by (simp add: seed_def)
  from assms have inp: "edit_inputs (Some n) ev = []"
    by (auto simp: edit_inputs_def key_truthy_def split: option.splits)
  have inf: "inferValue (case seed (Some n) 0 of Some t \<Rightarrow> t | None \<Rightarrow> []) = Returns JNull"
    by (simp add: sd inferValue_empty)
  have sv: "handleSave c (edit_click (on_open s))
            = Returns ((edit_click (on_open s))\<lparr>contents := newContent, opened := False\<rparr>)"
    if "selectedNode s = Some n" "opened s"
       "contentToJson c (contents s) (format s) = Returns jsonObj"
       "walk jsonObj (case node_path n of None \<Rightarrow> [] | Some ps \<Rightarrow> ps) Returns = Returns d"
       "jsonToContent c ''null'' (format s) = Returns newContent"
       "setContents c newContent = Returns ()"
  proof -
    have "new_document (Some n) Map.empty jsonObj = Returns JNull"
      using assms that(4) by (simp add: new_document_def inferValue_empty setAtPath_def obind_def)
    with that sd show ?thesis
      by (simp add: handleSave_def save_body_def on_open_def edit_click_def obind_def
            JSON_stringify_def)
  qed
  show ?thesis using sd inp inf sv by (simp add: on_open_def edit_click_def)
qed

theorem scalar_node_saves_null_witness:
  \<open>seed (Some count_node) = Map.empty
   \<and> edit_inputs (Some count_node) Map.empty = []
   \<and> handleSave json_collaborators
       (edit_click (on_open (editing count_node [0 \<mapsto> ''stale''] ''{"count":5,"other":1}'')))
     = Returns ((edit_click (on_open (editing count_node [0 \<mapsto> ''stale''] ''{"count":5,"other":1}'')))
                 \<lparr>contents := ''null'', opened := False\<rparr>)\<close>
proof -
  have 1: "node_text count_node = [\<lparr>row_key = None, row_value = JNum (Dec 5 0), row_type = ''number''\<rparr>]"
    by (simp add: count_node_def)
  have 2: "\<not> key_truthy \<lparr>row_key = None, row_value = JNum (Dec 5 0), row_type = ''number''\<rparr>"
    by (simp add: key_truthy_def)
  have 3: \<open>contentToJson json_collaborators
             (contents (editing count_node [0 \<mapsto> ''stale''] ''{"count":5,"other":1}''))
             (format (editing count_node [0 \<mapsto> ''stale''] ''{"count":5,"other":1}''))
           = Returns (JObj [(''count'', JNum (Dec 5 0)), (''other'', JNum (Dec 1 0))])\<close>
    by (simp add: json_collaborators_def editing_def parse_eval)
  have 4: "walk (JObj [(''count'', JNum (Dec 5 0)), (''other'', JNum (Dec 1 0))])
             (case node_path count_node of None \<Rightarrow> [] | Some ps \<Rightarrow> ps) Returns
           = Returns (JObj [(''count'', JNum (Dec 5 0)), (''other'', JNum (Dec 1 0))])"
    by (simp add: count_node_def access_eval)
  have 5: \<open>selectedNode (editing count_node [0 \<mapsto> ''stale''] ''{"count":5,"other":1}'') = Some count_node
           \<and> opened (editing count_node [0 \<mapsto> ''stale''] ''{"count":5,"other":1}'')\<close>
    by (simp add: editing_def)
  have 6: \<open>jsonToContent json_collaborators ''null''
             (format (editing count_node [0 \<mapsto> ''stale''] ''{"count":5,"other":1}'')) = Returns ''null''
           \<and> setContents json_collaborators ''null'' = Returns ()\<close>
    by (simp add: json_collaborators_def)
  from scalar_node_saves_null [OF 1 2, where ev = Map.empty
      and s = \<open>editing count_node [0 \<mapsto> ''stale''] ''{"count":5,"other":1}''\<close>
      and c = json_collaborators
      and jsonObj = "JObj [(''count'', JNum (Dec 5 0)), (''other'', JNum (Dec 1 0))]"
      and d = "JObj [(''count'', JNum (Dec 5 0)), (''other'', JNum (Dec 1 0))]"
      and newContent = "''null''"]
    3 4 5 6
  show ?thesis by blast
qed

section \<open>Creating the missing part of a path\<close>

lemma obj_update_after_insert:
  "map_of kvs k = None \<Longrightarrow> obj_update k b (obj_insert k a kvs) = obj_insert k b kvs"
  by (induction kvs) (auto split: if_splits)

lemma obj_update_twice: "obj_update k b (obj_update k a kvs) = obj_update k b kvs"
  by (induction kvs) auto

lemma obj_update_after_put: "obj_update k b (obj_put k a kvs) = obj_put k b kvs"
proof (cases "map_of kvs k")
  case None
  then show ?thesis by (simp add: obj_put_def obj_update_after_insert)
next
  case (Some w)
  then show ?thesis by (simp add: obj_put_def obj_update_twice)
qed

text \<open>Assigning to a slot and then replacing what it holds is assigning the replacement.\<close>

lemma put_slot_after_set:
  "set_prop t p a = Returns t' \<Longrightarrow> set_prop t p b = Returns (put_slot t' p b)"
proof (cases t)
  case (JObj kvs)
  assume "set_prop t p a = Returns t'"
  with JObj show ?thesis by (auto simp: obj_update_after_put split: if_splits)
next
  case (JArr xs)
  assume a: "set_prop t p a = Returns t'"
  with JArr obtain i where i: "seg_index p = Some i" by (auto split: option.splits)
  show ?thesis
  proof (cases "i < length xs")
    case True
    with a JArr i show ?thesis by auto
  next
    case False
    then have "(xs @ replicate (i - length xs) JUndefined @ [a])[i := b]
               = xs @ replicate (i - length xs) JUndefined @ [b]"
      by (simp add: list_update_append)
    with a JArr i False show ?thesis by auto
  qed
qed (auto split: if_splits)

lemma set_prop_outcome:
  "set_prop t p a = Throws e \<Longrightarrow> set_prop t p b = Throws e"
  "set_prop t p a = Outside \<Longrightarrow> set_prop t p b = Outside"
  by (cases t; auto split: if_splits option.splits)+

lemma proto_in_names: "''__proto__'' \<in> set Object_prototype_names"
  by (simp add: Object_prototype_names_def)

lemma walk_fresh:
  "list_all plain_seg ps \<Longrightarrow> key \<noteq> ''__proto__'' \<Longrightarrow>
   walk (case ps of Idx i # qs \<Rightarrow> JArr [] | _ \<Rightarrow> JObj []) ps (\<lambda>target. set_prop target (Key key) v)
     = Returns (fresh_chain ps key v)"
proof (induction ps)
  case Nil
  then show ?case by (simp add: prop_name_def obj_put_def)
next
  case (Cons p ps)
  then have ih: "walk (case ps of Idx i # qs \<Rightarrow> JArr [] | _ \<Rightarrow> JObj []) ps
                   (\<lambda>target. set_prop target (Key key) v) = Returns (fresh_chain ps key v)"
    by simp
  show ?case
  proof (cases p)
    case (Idx i)
    with Cons.prems have "seg_index p = Some i" by (simp add: plain_seg_def seg_index_def)
    with Idx ih show ?thesis by (simp add: obind_def list_update_append)
  next
    case (Key k)
    with Cons.prems have k: "k \<notin> set Object_prototype_names" by (simp add: plain_seg_def)
    with proto_in_names have "k \<noteq> ''__proto__''" by auto
    with Key k ih show ?thesis by (simp add: obind_def prop_name_def obj_put_def)
  qed
qed

section \<open>Assigning below a path that exists\<close>

lemma descend_append:
  "descend t (pre @ qs) = (case descend t pre of Some u \<Rightarrow> descend u qs | None \<Rightarrow> None)"
  by (induction pre arbitrary: t) (auto split: outcome.splits)

text \<open>A primitive takes no property, so no walk that ends in an assignment returns from one.\<close>

lemma walk_primitive:
  "(\<forall>kvs. t \<noteq> JObj kvs) \<Longrightarrow> (\<forall>xs. t \<noteq> JArr xs) \<Longrightarrow>
   walk t ps (\<lambda>target. set_prop target (Key k) v) \<noteq> Returns t'"
proof (induction ps arbitrary: t t')
  case Nil
  then show ?case by (cases t) auto
next
  case (Cons p ps)
  show ?case
  proof (cases t)
    case (JStr s)
    show ?thesis
    proof (cases "seg_index p")
      case None
      with JStr show ?thesis by (simp add: obind_def)
    next
      case (Some i)
      show ?thesis
      proof (cases "i < length s")
        case True
        have "walk (JStr [s ! i]) ps (\<lambda>target. set_prop target (Key k) v) \<noteq> Returns u" for u
          by (rule Cons.IH) simp_all
        with JStr Some True show ?thesis by (auto simp: obind_def split: outcome.splits)
      next
        case False
        with JStr Some show ?thesis by (auto simp: obind_def split: outcome.splits if_splits)
      qed
    qed
  next
    case JUndefined then show ?thesis by (simp add: obind_def)
  next
    case JNull then show ?thesis by (simp add: obind_def)
  next
    case (JBool b)
    then show ?thesis by (auto simp: obind_def split: option.splits outcome.splits if_splits)
  next
    case (JNum n)
    then show ?thesis by (auto simp: obind_def split: option.splits outcome.splits if_splits)
  next
    case (JArr xs) with Cons.prems show ?thesis by simp
  next
    case (JObj kvs) with Cons.prems show ?thesis by simp
  qed
qed

lemma get_after_put_slot:
  "get_prop t q = Returns c \<Longrightarrow> c \<noteq> JUndefined \<Longrightarrow> (\<exists>kvs. t = JObj kvs) \<or> (\<exists>xs. t = JArr xs) \<Longrightarrow>
   get_prop (put_slot t q c') q = Returns c'"
  by (cases t) (auto simp: map_of_obj_update split: option.splits if_splits)

lemma get_after_set:
  "set_prop t p x = Returns t' \<Longrightarrow> get_prop t' p = Returns x"
  by (cases t) (auto simp: map_of_obj_put nth_append split: option.splits if_splits)

lemma put_slot_undefined: "put_slot t p c = JUndefined \<Longrightarrow> t = JUndefined"
  by (cases t) (auto split: option.splits)

lemma set_prop_defined: "set_prop t p x = Returns t' \<Longrightarrow> t' \<noteq> JUndefined"
  by (cases t) (auto split: option.splits if_splits)

lemma walk_defined:
  assumes "walk t ps (\<lambda>target. set_prop target (Key k) v) = Returns t'"
  shows "t' \<noteq> JUndefined"
proof (cases ps)
  case Nil
  with assms show ?thesis by (auto dest: set_prop_defined)
next
  case (Cons p qs)
  from assms Cons obtain x y where t': "t' = put_slot x p y" and
    x: "x = t \<or> (\<exists>a. set_prop t p a = Returns x)"
    by (auto simp: obind_def Let_def split: outcome.splits if_splits)
  from assms Cons have "t \<noteq> JUndefined" by (auto simp: obind_def)
  with x have "x \<noteq> JUndefined" by (auto dest: set_prop_defined)
  with t' show ?thesis by (auto dest: put_slot_undefined)
qed

text \<open>
  A walk that ends in an assignment, below a prefix of the path that exists: the
  result holds at the end of the prefix what the rest of the walk makes of the value
  that was there.
\<close>

lemma walk_below_prefix:
  "descend doc pre = Some t \<Longrightarrow>
   walk t rest (\<lambda>target. set_prop target (Key k) v) = Returns t' \<Longrightarrow>
   \<exists>doc'. walk doc (pre @ rest) (\<lambda>target. set_prop target (Key k) v) = Returns doc'
          \<and> descend doc' pre = Some t'"
proof (induction pre arbitrary: doc)
  case Nil
  then show ?case by simp
next
  case (Cons q qs)
  from Cons.prems(1) obtain c where
    g: "get_prop doc q = Returns c" and c: "c \<noteq> JUndefined" and d: "descend c qs = Some t"
    by (auto split: outcome.splits if_splits)
  from Cons.IH [OF d Cons.prems(2)] obtain c' where
    w: "walk c (qs @ rest) (\<lambda>target. set_prop target (Key k) v) = Returns c'"
    and d': "descend c' qs = Some t'"
    by blast
  have cont: "(\<exists>kvs. c = JObj kvs) \<or> (\<exists>xs. c = JArr xs)"
    using walk_primitive [of c "qs @ rest" k v c'] w by blast
  have c'def: "c' \<noteq> JUndefined"
    using walk_defined [OF w] .
  have doccont: "(\<exists>kvs. doc = JObj kvs) \<or> (\<exists>xs. doc = JArr xs)"
  proof (rule ccontr)
    assume "\<not> ?thesis"
    with g c cont show False by (cases doc) (auto split: option.splits if_splits)
  qed
  from g c w have "walk doc ((q # qs) @ rest) (\<lambda>target. set_prop target (Key k) v)
                   = Returns (put_slot doc q c')"
    by (simp add: obind_def)
  moreover have "descend (put_slot doc q c') (q # qs) = Some t'"
    using get_after_put_slot [OF g c doccont, of c'] c'def d' by simp
  ultimately show ?case by blast
qed

lemma fresh_chain_defined: "fresh_chain ps key v \<noteq> JUndefined"
  by (cases "(ps, key, v)" rule: fresh_chain.cases) auto

lemma walk_at_undefined:
  assumes g: "get_prop t p = Returns JUndefined" and ps: "list_all plain_seg ps"
    and key: "key \<noteq> ''__proto__''"
  shows "walk t (p # ps) (\<lambda>target. set_prop target (Key key) v)
           = set_prop t p (fresh_chain ps key v)"
proof (cases "set_prop t p (case ps of Idx i # qs \<Rightarrow> JArr [] | _ \<Rightarrow> JObj [])")
  case (Returns t')
  from put_slot_after_set [OF Returns]
  have "set_prop t p (fresh_chain ps key v) = Returns (put_slot t' p (fresh_chain ps key v))" .
  with g Returns walk_fresh [OF ps key] show ?thesis by (simp add: obind_def)
next
  case (Throws e)
  with g set_prop_outcome(1) [OF Throws] show ?thesis by (simp add: obind_def)
next
  case Outside
  with g set_prop_outcome(2) [OF Outside] show ?thesis by (simp add: obind_def)
qed

text \<open>
  C7. Where the slot \<open>p\<close> of the target the walk has reached is undefined, walking
  \<open>p\<close> and the segments \<open>ps\<close> after it and assigning \<open>key\<close> is assigning to that one
  slot the chain of fresh containers, each an array when the segment after it is a
  number and an object otherwise. So when the path is \<open>pre\<close>, all of whose slots exist,
  then \<open>p\<close>, then \<open>ps\<close>, and the target at the end of \<open>pre\<close> can take the slot, the
  document that \<open>setAtPath\<close> returns holds that chain at \<open>pre\<close>, \<open>p\<close>. On the
  document \<open>{}\<close>, the path \<open>["a","b"]\<close>, the key \<open>c\<close> and the value \<open>1\<close> the result
  is \<open>{"a":{"b":{"c":1}}}\<close>.
\<close>

theorem setAtPath_creates_missing:
  "(get_prop t p = Returns JUndefined \<and> list_all plain_seg ps \<and> key \<noteq> ''__proto__''
      \<longrightarrow> walk t (p # ps) (\<lambda>target. set_prop target (Key key) v)
            = set_prop t p (fresh_chain ps key v)
        \<and> (descend doc pre = Some t \<and> set_prop t p (fresh_chain ps key v) = Returns t'
            \<longrightarrow> (\<exists>doc'. setAtPath doc (Some (pre @ p # ps)) (Some key) v = Returns doc'
                   \<and> descend doc' pre = Some t'
                   \<and> descend doc' (pre @ [p]) = Some (fresh_chain ps key v))))
   \<and> setAtPath (JObj []) (Some [Key ''a'', Key ''b'']) (Some ''c'') (JNum (Dec 1 0))
       = Returns (JObj [(''a'', JObj [(''b'', JObj [(''c'', JNum (Dec 1 0))])])])"
proof -
  have below: "\<exists>doc'. setAtPath doc (Some (pre @ p # ps)) (Some key) v = Returns doc'
                   \<and> descend doc' pre = Some t'
                   \<and> descend doc' (pre @ [p]) = Some (fresh_chain ps key v)"
    if g: "get_prop t p = Returns JUndefined" and ps: "list_all plain_seg ps"
      and key: "key \<noteq> ''__proto__''" and d: "descend doc pre = Some t"
      and s: "set_prop t p (fresh_chain ps key v) = Returns t'"
  proof -
    from walk_at_undefined [OF g ps key] s
    have "walk t (p # ps) (\<lambda>target. set_prop target (Key key) v) = Returns t'" by simp
    from walk_below_prefix [OF d this] obtain doc' where
      w: "walk doc (pre @ p # ps) (\<lambda>target. set_prop target (Key key) v) = Returns doc'"
      and d': "descend doc' pre = Some t'"
      by blast
    from get_after_set [OF s] fresh_chain_defined [of ps key v]
    have "descend t' [p] = Some (fresh_chain ps key v)" by simp
    with d' have "descend doc' (pre @ [p]) = Some (fresh_chain ps key v)"
      by (simp add: descend_append)
    with w d' show ?thesis by (auto simp: setAtPath_def)
  qed
  have example: "setAtPath (JObj []) (Some [Key ''a'', Key ''b'']) (Some ''c'') (JNum (Dec 1 0))
       = Returns (JObj [(''a'', JObj [(''b'', JObj [(''c'', JNum (Dec 1 0))])])])"
    by (simp add: access_eval obj_put_def)
  show ?thesis using walk_at_undefined below example by blast
qed

theorem setAtPath_creates_missing_witness:
  \<open>setAtPath (JObj [(''x'', JBool True), (''a'', JObj [])])
       (Some [Key ''a'', Key ''list'', Idx 2, Key ''b'']) (Some ''c'') (JNum (Dec 1 0))
     = Returns (JObj [(''x'', JBool True),
                      (''a'', JObj [(''list'', JArr [JUndefined, JUndefined,
                                    JObj [(''b'', JObj [(''c'', JNum (Dec 1 0))])]])])])
   \<and> JSON_stringify (JObj [(''x'', JBool True),
                      (''a'', JObj [(''list'', JArr [JUndefined, JUndefined,
                                    JObj [(''b'', JObj [(''c'', JNum (Dec 1 0))])]])])])
     = Some ''{"x":true,"a":{"list":[null,null,{"b":{"c":1}}]}}''\<close>
proof -
  define doc where "doc = JObj [(''x'', JBool True), (''a'', JObj [])]"
  have d: "descend doc [Key ''a''] = Some (JObj [])"
    by (simp add: doc_def prop_name_def)
  have g: "get_prop (JObj []) (Key ''list'') = Returns JUndefined"
    by (simp add: prop_name_def Object_prototype_names_def)
  have ps: "list_all plain_seg [Idx 2, Key ''b'']"
    by (simp add: plain_seg_def Object_prototype_names_def)
  have key: "''c'' \<noteq> ''__proto__''" by simp
  have s: "set_prop (JObj []) (Key ''list'') (fresh_chain [Idx 2, Key ''b''] ''c'' (JNum (Dec 1 0)))
           = Returns (JObj [(''list'', JArr [JUndefined, JUndefined,
                                    JObj [(''b'', JObj [(''c'', JNum (Dec 1 0))])]])])"
    by (simp add: prop_name_def obj_put_def replicate_numeral)
  from setAtPath_creates_missing [of "JObj []" "Key ''list''" "[Idx 2, Key ''b'']" "''c''"
      "JNum (Dec 1 0)" doc "[Key ''a'']"] d g ps key s
  obtain doc' where
    r: "setAtPath doc (Some [Key ''a'', Key ''list'', Idx 2, Key ''b'']) (Some ''c'') (JNum (Dec 1 0))
        = Returns doc'"
    and d': "descend doc' [Key ''a'']
             = Some (JObj [(''list'', JArr [JUndefined, JUndefined,
                                    JObj [(''b'', JObj [(''c'', JNum (Dec 1 0))])]])])"
    by auto
  have "setAtPath doc (Some [Key ''a'', Key ''list'', Idx 2, Key ''b'']) (Some ''c'') (JNum (Dec 1 0))
        = Returns (JObj [(''x'', JBool True),
                      (''a'', JObj [(''list'', JArr [JUndefined, JUndefined,
                                    JObj [(''b'', JObj [(''c'', JNum (Dec 1 0))])]])])])"
    by (simp add: doc_def access_eval obj_put_def replicate_numeral list_update_numeral)
  with r d' show ?thesis
    by (simp add: doc_def JSON_stringify_def quote_def escape_char_def join_def number_eval)
qed

section \<open>Assigning a key of an existing object\<close>

text \<open>
  Assigning a key of the object at the end of an existing path: the document returned
  holds there the object with that one key put.
\<close>

lemma setAtPath_member:
  assumes d: "descend doc ps = Some (JObj ms)" and k: "k \<noteq> ''__proto__''"
  shows "\<exists>doc'. setAtPath doc (Some ps) (Some k) v = Returns doc'
               \<and> descend doc' ps = Some (JObj (obj_put k v ms))"
proof -
  have "walk (JObj ms) [] (\<lambda>target. set_prop target (Key k) v) = Returns (JObj (obj_put k v ms))"
    using k by (simp add: prop_name_def)
  from walk_below_prefix [OF d this] show ?thesis by (simp add: setAtPath_def)
qed

text \<open>
  C3. The composite branch on the input of the claim: the row \<open>name\<close> at path
  \<open>["user"]\<close>, the buffer \<open>{0: "Carol"}\<close>, the document
  \<open>{"user":{"name":"Bob","age":30}}\<close>. The persisted document is
  \<open>{"user":{"name":"Carol","age":30}}\<close>: \<open>name\<close> is replaced in its place and \<open>age\<close>
  is as it was. In general, \<open>setAtPath\<close> with a key on the object at the end of an
  existing path puts that key and leaves every other key of the object with its value.
\<close>

theorem composite_save_keeps_siblings:
  \<open>(descend doc ps = Some (JObj ms) \<and> k \<noteq> ''__proto__''
      \<longrightarrow> (\<exists>doc'. setAtPath doc (Some ps) (Some k) v = Returns doc'
             \<and> descend doc' ps = Some (JObj (obj_put k v ms))
             \<and> map_of (obj_put k v ms) k = Some v
             \<and> (\<forall>k'. k' \<noteq> k \<longrightarrow> map_of (obj_put k v ms) k' = map_of ms k')))
   \<and> JSON_parse ''{"user":{"name":"Bob","age":30}}''
     = Returns (JObj [(''user'', JObj [(''name'', JStr ''Bob''), (''age'', JNum (Dec 30 0))])])
   \<and> new_document (Some user_node) [0 \<mapsto> ''Carol'']
       (JObj [(''user'', JObj [(''name'', JStr ''Bob''), (''age'', JNum (Dec 30 0))])])
     = Returns (JObj [(''user'', JObj [(''name'', JStr ''Carol''), (''age'', JNum (Dec 30 0))])])
   \<and> handleSave json_collaborators
       (editing user_node [0 \<mapsto> ''Carol''] ''{"user":{"name":"Bob","age":30}}'')
     = Returns ((editing user_node [0 \<mapsto> ''Carol''] ''{"user":{"name":"Bob","age":30}}'')
                 \<lparr>contents := ''{"user":{"name":"Carol","age":30}}'', opened := False\<rparr>)\<close>
proof -
  have frame: "\<exists>doc'. setAtPath doc (Some ps) (Some k) v = Returns doc'
             \<and> descend doc' ps = Some (JObj (obj_put k v ms))
             \<and> map_of (obj_put k v ms) k = Some v
             \<and> (\<forall>k'. k' \<noteq> k \<longrightarrow> map_of (obj_put k v ms) k' = map_of ms k')"
    if "descend doc ps = Some (JObj ms)" "k \<noteq> ''__proto__''"
    using setAtPath_member [OF that] by (auto simp: map_of_obj_put map_of_obj_put_other)
  have example: \<open>JSON_parse ''{"user":{"name":"Bob","age":30}}''
     = Returns (JObj [(''user'', JObj [(''name'', JStr ''Bob''), (''age'', JNum (Dec 30 0))])])
   \<and> new_document (Some user_node) [0 \<mapsto> ''Carol'']
       (JObj [(''user'', JObj [(''name'', JStr ''Bob''), (''age'', JNum (Dec 30 0))])])
     = Returns (JObj [(''user'', JObj [(''name'', JStr ''Carol''), (''age'', JNum (Dec 30 0))])])
   \<and> handleSave json_collaborators
       (editing user_node [0 \<mapsto> ''Carol''] ''{"user":{"name":"Bob","age":30}}'')
     = Returns ((editing user_node [0 \<mapsto> ''Carol''] ''{"user":{"name":"Bob","age":30}}'')
                 \<lparr>contents := ''{"user":{"name":"Carol","age":30}}'', opened := False\<rparr>)\<close>
    by (simp add: save_eval access_eval json_collaborators_def editing_def user_node_def
          inferValue_def parse_eval numeric_pattern_def)
  show ?thesis using frame example by blast
qed

theorem composite_save_keeps_siblings_witness:
  \<open>(\<exists>doc'. setAtPath (JObj [(''user'', JObj [(''name'', JStr ''Bob''), (''age'', JNum (Dec 30 0))])])
              (Some [Key ''user'']) (Some ''name'') (JStr ''Carol'') = Returns doc'
          \<and> descend doc' [Key ''user'']
              = Some (JObj [(''name'', JStr ''Carol''), (''age'', JNum (Dec 30 0))]))
   \<and> map_of (obj_put ''name'' (JStr ''Carol'') [(''name'', JStr ''Bob''), (''age'', JNum (Dec 30 0))]) ''age''
     = Some (JNum (Dec 30 0))\<close>
proof -
  have d: "descend (JObj [(''user'', JObj [(''name'', JStr ''Bob''), (''age'', JNum (Dec 30 0))])])
             [Key ''user''] = Some (JObj [(''name'', JStr ''Bob''), (''age'', JNum (Dec 30 0))])"
    by (simp add: prop_name_def)
  have k: "''name'' \<noteq> ''__proto__''" by simp
  have p: "obj_put ''name'' (JStr ''Carol'') [(''name'', JStr ''Bob''), (''age'', JNum (Dec 30 0))]
           = [(''name'', JStr ''Carol''), (''age'', JNum (Dec 30 0))]"
    by (simp add: obj_put_def)
  from composite_save_keeps_siblings [of
      "JObj [(''user'', JObj [(''name'', JStr ''Bob''), (''age'', JNum (Dec 30 0))])]"
      "[Key ''user'']" "[(''name'', JStr ''Bob''), (''age'', JNum (Dec 30 0))]" "''name''"
      "JStr ''Carol''"] d k
  show ?thesis unfolding p by auto
qed

section \<open>Values that are inferred back from their text\<close>



















section \<open>Cancel, then save\<close>








end
